theory Spec2Isabelle
  imports Main "HOL-Library.Sublist"
begin

section \<open>The tinyexr recipe: data\<close>

text \<open>
  The recipe is the class \<open>TinyExrConan\<close> of \<open>recipes/tinyexr/all/conanfile.py\<close>.
  Its methods read three things of \<open>self\<close>: the option values, the settings, and
  the attribute \<open>_header_only\<close> that \<open>source()\<close> sets. The record below holds
  them. The attribute is optional: an instance on which \<open>source()\<close> never ran has
  none, and every reader goes through \<open>getattr(self, "_header_only", False)\<close>.
\<close>

datatype error =
    KeyError
  | UnicodeDecodeError
  | FileExistsError
  | FileNotFoundError
  | NotADirectoryError
  | IsADirectoryError
  | IndexError
  | ConanInvalidConfiguration
  | ConanException

text \<open>The domain of \<open>with_z\<close> is \<open>["zlib", "miniz"]\<close> (line 20 of the recipe).\<close>

datatype zlib_choice = Zlib | Miniz

record options =
  with_z :: zlib_choice
  with_piz :: bool
  with_zfp :: bool
  with_thread :: bool
  with_openmp :: bool
  shared :: bool

definition default_options :: options where
  "default_options =
     \<lparr>with_z = Miniz, with_piz = True, with_zfp = False, with_thread = False,
      with_openmp = False, shared = False\<rparr>"

text \<open>
  The settings \<open>os, arch, compiler, build_type\<close>, and \<open>compiler.cppstd\<close> as
  \<open>get_safe("cppstd")\<close> reads it: \<open>None\<close> when the profile sets no standard.
\<close>

record settings =
  os :: string
  arch :: string
  compiler :: string
  build_type :: string
  cppstd :: "string option"

record recipe =
  version :: string
  opts :: options
  sets :: settings
  header_only :: "bool option"

text \<open>\<open>getattr(self, "_header_only", False)\<close>.\<close>

definition getattr_header_only :: "recipe \<Rightarrow> bool" where
  "getattr_header_only self = (case header_only self of None \<Rightarrow> False | Some b \<Rightarrow> b)"

section \<open>Requirements\<close>

text \<open>
  \<open>self.requires(ref)\<close> adds a reference to the recipe's requirement list; the
  method starts from the list it is given (empty for a fresh recipe) and returns it
  extended, in the order of the calls.
\<close>

definition requires :: "string \<Rightarrow> string list \<Rightarrow> string list" where
  "requires ref reqs = reqs @ [ref]"

definition requirements :: "recipe \<Rightarrow> string list \<Rightarrow> string list" where
  "requirements self reqs =
     (let reqs1 = (if with_z (opts self) = Miniz then requires ''miniz/3.0.2'' reqs
                   else requires ''zlib/[>=1.2.11 <2]'' reqs)
      in if with_zfp (opts self) then requires ''zfp/1.0.0'' reqs1 else reqs1)"

section \<open>Validation\<close>

text \<open>
  \<open>check_min_cppstd(self, "11")\<close> is Conan's helper. It drops \<open>gnu\<close> from the
  configured standard, puts the century in front (\<open>19\<close> for \<open>98\<close>, \<open>20\<close>
  otherwise), and raises \<open>ConanInvalidConfiguration\<close> when the result is below that of
  the required standard in Python's string order; with no standard configured it
  raises as well. Python compares strings code point by code point.
\<close>

fun str_less :: "string \<Rightarrow> string \<Rightarrow> bool" where
  "str_less [] [] = False"
| "str_less [] (y # ys) = True"
| "str_less (x # xs) [] = False"
| "str_less (x # xs) (y # ys) =
     ((of_char x :: nat) < of_char y \<or> (x = y \<and> str_less xs ys))"

text \<open>\<open>s.replace("gnu", "")\<close>: every occurrence, left to right.\<close>

fun remove_gnu :: "string \<Rightarrow> string" where
  "remove_gnu [] = []"
| "remove_gnu (c # cs) =
     (if take 3 (c # cs) = ''gnu'' then remove_gnu (drop 2 cs) else c # remove_gnu cs)"

definition add_millennium :: "string \<Rightarrow> string" where
  "add_millennium s = (if s = ''98'' then ''19'' @ s else ''20'' @ s)"

definition check_min_cppstd :: "recipe \<Rightarrow> string \<Rightarrow> error + unit" where
  "check_min_cppstd self required =
     (case cppstd (sets self) of
        None \<Rightarrow> Inl ConanInvalidConfiguration
      | Some current \<Rightarrow>
          if str_less (add_millennium (remove_gnu current))
               (add_millennium (remove_gnu required))
          then Inl ConanInvalidConfiguration
          else Inr ())"

text \<open>
  \<open>validate\<close>: the guard is Python truthiness, so a standard that is set is one that
  is not \<open>None\<close> and not the empty string.
\<close>

definition truthy :: "string option \<Rightarrow> bool" where
  "truthy v = (case v of None \<Rightarrow> False | Some s \<Rightarrow> s \<noteq> [])"

definition validate :: "recipe \<Rightarrow> error + unit" where
  "validate self =
     (if with_thread (opts self) \<and> truthy (cppstd (sets self))
      then check_min_cppstd self ''11''
      else Inr ())"

text \<open>
  A language standard is named by the two digits of its year, with \<open>gnu\<close> in front
  for the GNU dialect: \<open>98\<close>, \<open>gnu03\<close>, \<open>11\<close>, \<open>gnu17\<close>. \<open>98\<close> is the standard
  of 1998; every other number is a year of this century. Any other string names no
  standard.
\<close>

definition is_digit :: "char \<Rightarrow> bool" where
  "is_digit c = ((48::nat) \<le> of_char c \<and> of_char c \<le> (57::nat))"

definition two_digits :: "string \<Rightarrow> nat option" where
  "two_digits s =
     (case s of
        [d1, d2] \<Rightarrow>
          if is_digit d1 \<and> is_digit d2
          then Some (10 * (of_char d1 - 48) + (of_char d2 - 48))
          else None
      | _ \<Rightarrow> None)"

definition standard_year :: "string \<Rightarrow> nat option" where
  "standard_year s =
     map_option (\<lambda>n. if n = 98 then 1998 else 2000 + n)
       (two_digits (if take 3 s = ''gnu'' then drop 3 s else s))"

section \<open>Source trees and build-mode detection\<close>

text \<open>
  A folder on disk, as the recipe reads it: the entries of a directory in the order
  the operating system lists them, each a regular file with its bytes and the time
  of its last modification, or a directory with its own entries. Links are not
  modelled. The names are meant to be file names, which are not empty and hold no
  path separator.
\<close>

type_synonym bytes = string

datatype fsnode = File bytes nat | Dir "(string \<times> fsnode) list"

type_synonym listing = "(string \<times> fsnode) list"

text \<open>\<open>os.path.exists\<close> and \<open>os.path.isfile\<close> of a name directly under a folder.\<close>

definition path_exists :: "listing \<Rightarrow> string \<Rightarrow> bool" where
  "path_exists folder name = (map_of folder name \<noteq> None)"

definition isfile :: "listing \<Rightarrow> string \<Rightarrow> bool" where
  "isfile folder name = (case map_of folder name of Some (File b t) \<Rightarrow> True | _ \<Rightarrow> False)"

text \<open>
  \<open>source()\<close>: \<open>self.conan_data["sources"][self.version]\<close> is a dictionary lookup
  that raises \<open>KeyError\<close>; \<open>get\<close> downloads and unpacks into the source folder or
  raises; then the attribute is set from the unpacked tree. The result is the recipe
  with the attribute, and the source folder.
\<close>

definition source ::
  "(string \<rightharpoonup> 'a) \<Rightarrow> ('a \<Rightarrow> error + listing) \<Rightarrow> recipe \<Rightarrow> error + (recipe \<times> listing)" where
  "source conan_sources get self =
     (case conan_sources (version self) of
        None \<Rightarrow> Inl KeyError
      | Some entry \<Rightarrow>
          (case get entry of
             Inl e \<Rightarrow> Inl e
           | Inr source_folder \<Rightarrow>
               Inr (self\<lparr>header_only := Some (\<not> path_exists source_folder ''tinyexr.cc'')\<rparr>,
                    source_folder)))"

section \<open>Package identity\<close>

text \<open>
  \<open>self.info\<close> is what Conan hashes into the package id: copies of the settings, the
  options and the requirements. \<open>clear()\<close> empties all of them.
\<close>

record pkg_info =
  info_settings :: "(string \<times> string) list"
  info_options :: "(string \<times> string) list"
  info_requires :: "string list"

definition clear :: "pkg_info \<Rightarrow> pkg_info" where
  "clear info = \<lparr>info_settings = [], info_options = [], info_requires = []\<rparr>"

definition package_id :: "recipe \<Rightarrow> pkg_info \<Rightarrow> pkg_info" where
  "package_id self info = (if getattr_header_only self then clear info else info)"

text \<open>The information Conan starts from, before \<open>package_id()\<close> runs.\<close>

definition str_bool :: "bool \<Rightarrow> string" where
  "str_bool b = (if b then ''True'' else ''False'')"

definition initial_info :: "recipe \<Rightarrow> pkg_info" where
  "initial_info self =
     \<lparr>info_settings =
        [(''os'', os (sets self)), (''arch'', arch (sets self)),
         (''compiler'', compiler (sets self)), (''build_type'', build_type (sets self))]
        @ (case cppstd (sets self) of None \<Rightarrow> [] | Some s \<Rightarrow> [(''compiler.cppstd'', s)]),
      info_options =
        [(''with_z'', if with_z (opts self) = Miniz then ''miniz'' else ''zlib''),
         (''with_piz'', str_bool (with_piz (opts self))),
         (''with_zfp'', str_bool (with_zfp (opts self))),
         (''with_thread'', str_bool (with_thread (opts self))),
         (''with_openmp'', str_bool (with_openmp (opts self))),
         (''shared'', str_bool (shared (opts self)))],
      info_requires = requirements self []\<rparr>"

section \<open>Generate and build\<close>

text \<open>
  \<open>generate()\<close> writes the CMake toolchain file, with the variables the recipe set,
  and the dependency files of \<open>CMakeDeps\<close>. The model returns what was generated, in
  order. \<open>tc.variables[k] = v\<close> is a dictionary assignment.
\<close>

datatype generated = CMakeToolchain "(string \<times> string) list" | CMakeDeps

definition setitem :: "string \<Rightarrow> string \<Rightarrow> (string \<times> string) list \<Rightarrow> (string \<times> string) list" where
  "setitem k v d =
     (if k \<in> fst ` set d then map (\<lambda>(k', v'). if k' = k then (k', v) else (k', v')) d
      else d @ [(k, v)])"

definition on_off :: "bool \<Rightarrow> string" where
  "on_off b = (if b then ''ON'' else ''OFF'')"

definition toolchain_variables :: "recipe \<Rightarrow> (string \<times> string) list" where
  "toolchain_variables self =
     (let v1 = setitem ''TINYEXR_USE_MINIZ'' (on_off (with_z (opts self) = Miniz)) [];
          v2 = setitem ''TINYEXR_USE_PIZ'' (on_off (with_piz (opts self))) v1;
          v3 = setitem ''TINYEXR_USE_ZFP'' (on_off (with_zfp (opts self))) v2;
          v4 = setitem ''TINYEXR_USE_THREAD'' (on_off (with_thread (opts self))) v3;
          v5 = setitem ''TINYEXR_USE_OPENMP'' (on_off (with_openmp (opts self))) v4;
          v6 = setitem ''TINYEXR_BUILD_SAMPLE'' ''OFF'' v5
      in setitem ''BUILD_SHARED_LIBS'' (on_off (shared (opts self))) v6)"

definition generate :: "recipe \<Rightarrow> generated list" where
  "generate self =
     (if getattr_header_only self then []
      else [CMakeToolchain (toolchain_variables self), CMakeDeps])"

text \<open>
  \<open>build()\<close> calls three tools. Each either succeeds or raises; the record says
  which, and the model returns the calls made, in order, with the outcome.
\<close>

datatype action = ApplyPatches | CMakeConfigure | CMakeBuild

record tools =
  patches_apply :: bool
  cmake_configures :: bool
  cmake_builds :: bool

definition build :: "tools \<Rightarrow> recipe \<Rightarrow> action list \<times> (error + unit)" where
  "build t self =
     (if \<not> patches_apply t then ([ApplyPatches], Inl ConanException)
      else if getattr_header_only self then ([ApplyPatches], Inr ())
      else if \<not> cmake_configures t then ([ApplyPatches, CMakeConfigure], Inl ConanException)
      else if \<not> cmake_builds t then
        ([ApplyPatches, CMakeConfigure, CMakeBuild], Inl ConanException)
      else ([ApplyPatches, CMakeConfigure, CMakeBuild], Inr ()))"

section \<open>Consumer information\<close>

text \<open>
  \<open>self.cpp_info\<close>; its \<open>defines\<close> is the field \<open>cpp_defines\<close> here.
\<close>

record cpp_info =
  cpp_defines :: "string list"
  libs :: "string list"
  bindirs :: "string list"
  libdirs :: "string list"
  system_libs :: "string list"

text \<open>What Conan hands to \<open>package_info()\<close>: no defines, no libraries, the default folders.\<close>

definition new_cpp_info :: cpp_info where
  "new_cpp_info =
     \<lparr>cpp_defines = [], libs = [], bindirs = [''bin''], libdirs = [''lib''], system_libs = []\<rparr>"

definition flag :: "bool \<Rightarrow> string" where
  "flag b = (if b then ''1'' else ''0'')"

definition package_info :: "recipe \<Rightarrow> cpp_info \<Rightarrow> cpp_info" where
  "package_info self ci =
     (let ci1 = ci\<lparr>cpp_defines := cpp_defines ci @ [''TINYEXR_USE_MINIZ='' @ flag (with_z (opts self) = Miniz)]\<rparr>;
          ci2 = ci1\<lparr>cpp_defines := cpp_defines ci1 @ [''TINYEXR_USE_PIZ='' @ flag (with_piz (opts self))]\<rparr>;
          ci3 = ci2\<lparr>cpp_defines := cpp_defines ci2 @ [''TINYEXR_USE_ZFP='' @ flag (with_zfp (opts self))]\<rparr>;
          ci4 = ci3\<lparr>cpp_defines := cpp_defines ci3 @ [''TINYEXR_USE_THREAD='' @ flag (with_thread (opts self))]\<rparr>;
          ci5 = ci4\<lparr>cpp_defines := cpp_defines ci4 @ [''TINYEXR_USE_OPENMP='' @ flag (with_openmp (opts self))]\<rparr>;
          ci6 = (if getattr_header_only self then ci5\<lparr>bindirs := [], libdirs := []\<rparr>
                 else ci5\<lparr>libs := [''tinyexr'']\<rparr>)
      in if os (sets self) \<in> set [''Linux'', ''FreeBSD''] \<and> with_thread (opts self)
         then ci6\<lparr>system_libs := system_libs ci6 @ [''pthread'']\<rparr>
         else ci6)"

section \<open>License extraction\<close>

text \<open>
  Sequencing of steps that may raise: the first error ends the run.
\<close>

definition and_then :: "error + 'a \<Rightarrow> ('a \<Rightarrow> error + 'b) \<Rightarrow> error + 'b" where
  "and_then r f = (case r of Inl e \<Rightarrow> Inl e | Inr x \<Rightarrow> f x)"

text \<open>
  \<open>open(path, "r", encoding="utf-8")\<close> decodes the bytes strictly and translates
  every line ending (\<open>\r\n\<close>, \<open>\r\<close>) to \<open>\n\<close>. A Python string is kept here as
  its UTF-8 bytes, so decoding is the check that the bytes are well-formed UTF-8:
  no stray continuation byte, no overlong form, no surrogate, nothing above U+10FFFF.
\<close>

definition continuation :: "nat \<Rightarrow> bool" where
  "continuation b = (0x80 \<le> b \<and> b \<le> 0xBF)"

definition second_of3 :: "nat \<Rightarrow> nat \<Rightarrow> bool" where
  "second_of3 b c =
     (if b = 0xE0 then 0xA0 \<le> c \<and> c \<le> 0xBF
      else if b = 0xED then 0x80 \<le> c \<and> c \<le> 0x9F
      else continuation c)"

definition second_of4 :: "nat \<Rightarrow> nat \<Rightarrow> bool" where
  "second_of4 b c =
     (if b = 0xF0 then 0x90 \<le> c \<and> c \<le> 0xBF
      else if b = 0xF4 then 0x80 \<le> c \<and> c \<le> 0x8F
      else continuation c)"

fun utf8_valid :: "nat list \<Rightarrow> bool" where
  "utf8_valid [] = True"
| "utf8_valid (b # bs) =
     (if b < 0x80 then utf8_valid bs
      else if 0xC2 \<le> b \<and> b \<le> 0xDF then
        (case bs of c1 # r \<Rightarrow> continuation c1 \<and> utf8_valid r | _ \<Rightarrow> False)
      else if 0xE0 \<le> b \<and> b \<le> 0xEF then
        (case bs of
           c1 # c2 # r \<Rightarrow> second_of3 b c1 \<and> continuation c2 \<and> utf8_valid r
         | _ \<Rightarrow> False)
      else if 0xF0 \<le> b \<and> b \<le> 0xF4 then
        (case bs of
           c1 # c2 # c3 # r \<Rightarrow>
             second_of4 b c1 \<and> continuation c2 \<and> continuation c3 \<and> utf8_valid r
         | _ \<Rightarrow> False)
      else False)"

fun universal_newlines :: "string \<Rightarrow> string" where
  "universal_newlines [] = []"
| "universal_newlines (c # cs) =
     (if c = CHR 0x0D then
        (case cs of
           [] \<Rightarrow> [CHR 0x0A]
         | d # r \<Rightarrow>
             if d = CHR 0x0A then CHR 0x0A # universal_newlines r
             else CHR 0x0A # universal_newlines (d # r))
      else c # universal_newlines cs)"

definition read_text :: "bytes \<Rightarrow> error + string" where
  "read_text b =
     (if utf8_valid (map of_char b) then Inr (universal_newlines b)
      else Inl UnicodeDecodeError)"

text \<open>
  \<open>readlines()\<close>: the text cut after every \<open>\n\<close>; each line keeps its \<open>\n\<close>, and a
  last line without one is a line too. The first argument is the line being read.
\<close>

fun lines_from :: "string \<Rightarrow> string \<Rightarrow> string list" where
  "lines_from cur [] = (if cur = [] then [] else [cur])"
| "lines_from cur (c # cs) =
     (if c = CHR 0x0A then (cur @ [c]) # lines_from [] cs else lines_from (cur @ [c]) cs)"

definition readlines :: "string \<Rightarrow> string list" where
  "readlines s = lines_from [] s"

text \<open>\<open>line.rstrip('\n')\<close> and \<open>"\n".join(lines)\<close>.\<close>

definition rstrip_newline :: "string \<Rightarrow> string" where
  "rstrip_newline s = rev (dropWhile (\<lambda>c. c = CHR 0x0A) (rev s))"

fun join :: "string \<Rightarrow> string list \<Rightarrow> string" where
  "join sep [] = []"
| "join sep [x] = x"
| "join sep (x # y # r) = x @ sep @ join sep (y # r)"

text \<open>
  \<open>range(lo, hi)\<close> and \<open>xs[i]\<close> on Python's integers: an index below zero counts
  from the end, and one outside the list raises \<open>IndexError\<close>.
\<close>

definition py_range :: "int \<Rightarrow> int \<Rightarrow> int list" where
  "py_range lo hi = map (\<lambda>k. lo + int k) [0..<nat (hi - lo)]"

definition getitem :: "'a list \<Rightarrow> int \<Rightarrow> error + 'a" where
  "getitem xs i =
     (if 0 \<le> i \<and> i < int (length xs) then Inr (xs ! nat i)
      else if i < 0 \<and> - int (length xs) \<le> i then Inr (xs ! nat (int (length xs) + i))
      else Inl IndexError)"

text \<open>The loop of lines 76 and 77, over the indices of the range.\<close>

fun extract_loop :: "string list \<Rightarrow> int list \<Rightarrow> string list \<Rightarrow> error + string list" where
  "extract_loop content_lines [] license_content = Inr license_content"
| "extract_loop content_lines (i # rest) license_content =
     (case getitem content_lines i of
        Inl e \<Rightarrow> Inl e
      | Inr line \<Rightarrow> extract_loop content_lines rest (license_content @ [rstrip_newline line]))"

definition extracted_license :: "listing \<Rightarrow> error + string" where
  "extracted_license source_folder =
     (case map_of source_folder ''LICENSE'' of
        Some (File b t) \<Rightarrow> read_text b
      | _ \<Rightarrow>
         (case map_of source_folder ''tinyexr.h'' of
            Some (File b t) \<Rightarrow>
              and_then (read_text b) (\<lambda>text.
                let content_lines = readlines text;
                    len = int (length content_lines)
                in and_then (extract_loop content_lines (py_range (min 0 len) (min 40 len)) [])
                     (\<lambda>license_content. Inr (join [CHR 0x0A] license_content)))
          | _ \<Rightarrow> Inr []))"

section \<open>The package folder\<close>

text \<open>
  The package folder is written, so it is a state: what stands at each path below
  the folder, a path being the list of its components. The folder itself is the empty
  path and always a directory. A regular file has its bytes and the time of its last
  modification; permissions are not kept.
\<close>

type_synonym path = "string list"

datatype entry = RegularFile bytes nat | Directory

type_synonym folder = "path \<Rightarrow> entry option"

definition isdir :: "path \<Rightarrow> folder \<Rightarrow> bool" where
  "isdir q s = (q = [] \<or> s q = Some Directory)"

definition folder_exists :: "path \<Rightarrow> folder \<Rightarrow> bool" where
  "folder_exists q s = (q = [] \<or> s q \<noteq> None)"

text \<open>What the operating system answers when the parent of a path is not a directory.\<close>

definition parent_error :: "path \<Rightarrow> folder \<Rightarrow> error option" where
  "parent_error q s =
     (if butlast q = [] then None
      else case s (butlast q) of
             None \<Rightarrow> Some FileNotFoundError
           | Some (RegularFile b t) \<Rightarrow> Some NotADirectoryError
           | Some Directory \<Rightarrow> None)"

text \<open>\<open>os.mkdir(path)\<close>.\<close>

definition mkdir :: "path \<Rightarrow> folder \<Rightarrow> error + folder" where
  "mkdir q s =
     (if q = [] then Inl FileExistsError
      else case parent_error q s of
             Some e \<Rightarrow> Inl e
           | None \<Rightarrow>
               (case s q of
                  Some x \<Rightarrow> Inl FileExistsError
                | None \<Rightarrow> Inr (s(q \<mapsto> Directory))))"

text \<open>
  \<open>os.makedirs(path, exist_ok=True)\<close>: the missing parents first, a
  \<open>FileExistsError\<close> from them ignored; then \<open>mkdir\<close>, whose error is ignored when
  the path is a directory already.
\<close>

function makedirs :: "path \<Rightarrow> folder \<Rightarrow> error + folder" where
  "makedirs q s =
     (case (if q \<noteq> [] \<and> \<not> folder_exists (butlast q) s then
              (case makedirs (butlast q) s of
                 Inl e \<Rightarrow> if e = FileExistsError then Inr s else Inl e
               | Inr s1 \<Rightarrow> Inr s1)
            else Inr s) of
        Inl e \<Rightarrow> Inl e
      | Inr s1 \<Rightarrow>
          (case mkdir q s1 of
             Inl e \<Rightarrow> if isdir q s1 then Inr s1 else Inl e
           | Inr s2 \<Rightarrow> Inr s2))"
  by pat_completeness auto
termination
  by (relation "measure (\<lambda>(q, s). length q)") auto

declare makedirs.simps [simp del]

text \<open>
  \<open>open(path, "w").write(content)\<close>; the last argument but one is the time the file
  has afterwards.
\<close>

definition write_file :: "path \<Rightarrow> bytes \<Rightarrow> nat \<Rightarrow> folder \<Rightarrow> error + folder" where
  "write_file q content mtime s =
     (if isdir q s then Inl IsADirectoryError
      else case parent_error q s of
             Some e \<Rightarrow> Inl e
           | None \<Rightarrow> Inr (s(q \<mapsto> RegularFile content mtime)))"

text \<open>
  Conan's \<open>save(conanfile, path, content)\<close>: the folder of the path is made, then the
  file is written, encoded as UTF-8 and with no translation of line ends. The file
  has the time of the writing.
\<close>

definition save :: "path \<Rightarrow> string \<Rightarrow> nat \<Rightarrow> folder \<Rightarrow> error + folder" where
  "save q content time s = and_then (makedirs (butlast q) s) (write_file q content time)"

text \<open>
  \<open>shutil.copy2(src, dst)\<close>, for a source file with the given name, bytes and time:
  into the directory when \<open>dst\<close> is one, onto \<open>dst\<close> otherwise. The copy has the
  bytes and the time of the source.
\<close>

definition copy2 :: "string \<Rightarrow> bytes \<Rightarrow> nat \<Rightarrow> path \<Rightarrow> folder \<Rightarrow> error + folder" where
  "copy2 name content mtime dst s =
     (if isdir dst s then write_file (dst @ [name]) content mtime s
      else write_file dst content mtime s)"

text \<open>
  \<open>filecmp.cmp(src, dst)\<close> for a source file with the given bytes and time: false
  when \<open>dst\<close> is not a regular file, true when size and time agree, and otherwise
  true exactly when the bytes agree. Its cache is not modelled: every call reads the
  files.
\<close>

definition filecmp :: "bytes \<Rightarrow> nat \<Rightarrow> entry option \<Rightarrow> bool" where
  "filecmp content mtime dst =
     (case dst of
        Some (RegularFile c m) \<Rightarrow>
          if length c = length content \<and> m = mtime then True
          else if length c \<noteq> length content then False
          else c = content
      | _ \<Rightarrow> False)"

section \<open>Conan's copy\<close>

text \<open>
  What \<open>package()\<close> reads besides the recipe: the source folder, the build folder,
  Python's \<open>os.name\<close>, the time of the run, and Python's \<open>fnmatch.fnmatch\<close> on a
  name and a pattern.
\<close>

record world =
  source_folder :: listing
  build_folder :: listing
  os_name :: string
  now :: nat
  fnmatch :: "string \<Rightarrow> string \<Rightarrow> bool"

text \<open>
  The files below a folder with their paths relative to it, in the order of
  \<open>os.walk\<close>: the files of the folder, then those of each of its directories in turn.
\<close>

fun rel_files :: "listing \<Rightarrow> (path \<times> bytes \<times> nat) list" where
  "rel_files folder =
     concat (map (\<lambda>(n, node). case node of File b t \<Rightarrow> [([n], b, t)] | Dir sub \<Rightarrow> []) folder)
     @ concat (map (\<lambda>(n, node). case node of
                      Dir sub \<Rightarrow> map (\<lambda>(rel, b, t). (n # rel, b, t)) (rel_files sub)
                    | File b t \<Rightarrow> []) folder)"

declare rel_files.simps [simp del]

text \<open>
  Conan's \<open>copy(conanfile, pattern, src, dst)\<close>, as Conan 2 has it. It walks \<open>src\<close>,
  keeps the files whose path relative to \<open>src\<close>, in lower case, matches the pattern in
  lower case, and copies each to the same relative path under \<open>dst\<close>, making the
  folder first. A file is not copied when the destination exists and
  \<open>filecmp.cmp\<close> finds it equal.

  The match is \<open>fnmatch.fnmatch\<close>. A pattern with none of \<open>*\<close>, \<open>?\<close> and \<open>[\<close> matches
  the names equal to it and no other; for a pattern with one of them the model asks
  the \<open>fnmatch\<close> of the world. Case is folded for the letters A to Z, and the parts of
  a relative path are joined by \<open>os.sep\<close>.

  The package folder lies outside the folder that is walked, so the walk meets no
  destination; \<open>keep_path\<close>, \<open>excludes\<close> and \<open>overwrite_equal\<close> have their defaults.
\<close>

definition lower_char :: "char \<Rightarrow> char" where
  "lower_char c =
     (if (65::nat) \<le> of_char c \<and> of_char c \<le> (90::nat)
      then char_of (of_char c + (32::nat)) else c)"

definition lower :: "string \<Rightarrow> string" where
  "lower s = map lower_char s"

definition os_sep :: "string \<Rightarrow> string" where
  "os_sep name = (if name = ''nt'' then [CHR 0x5C] else ''/'')"

definition wildcard_free :: "string \<Rightarrow> bool" where
  "wildcard_free pattern =
     (CHR ''*'' \<notin> set pattern \<and> CHR ''?'' \<notin> set pattern \<and> CHR ''['' \<notin> set pattern)"

definition pattern_matches :: "world \<Rightarrow> string \<Rightarrow> path \<Rightarrow> bool" where
  "pattern_matches w pattern rel =
     (if wildcard_free pattern
      then lower (join (os_sep (os_name w)) rel) = lower pattern
      else fnmatch w (lower (join (os_sep (os_name w)) rel)) (lower pattern))"

definition files_to_copy :: "world \<Rightarrow> string \<Rightarrow> listing \<Rightarrow> (path \<times> bytes \<times> nat) list" where
  "files_to_copy w pattern src =
     filter (\<lambda>(rel, b, t). pattern_matches w pattern rel) (rel_files src)"

text \<open>
  One file of the loop of \<open>_copy_files\<close>, once its folder is made: \<open>shutil.copy2\<close>
  unless the destination exists and \<open>filecmp.cmp\<close> finds it equal. The first argument
  is the name of the source file.
\<close>

definition copy_file :: "string \<Rightarrow> bytes \<Rightarrow> nat \<Rightarrow> path \<Rightarrow> folder \<Rightarrow> error + folder" where
  "copy_file name content mtime dst s =
     (if \<not> folder_exists dst s \<or> \<not> filecmp content mtime (s dst)
      then copy2 name content mtime dst s
      else Inr s)"

fun copy_files :: "(path \<times> bytes \<times> nat) list \<Rightarrow> path \<Rightarrow> folder \<Rightarrow> error + folder" where
  "copy_files [] dst s = Inr s"
| "copy_files ((rel, content, mtime) # rest) dst s =
     and_then (makedirs (butlast (dst @ rel)) s) (\<lambda>s1.
     and_then (copy_file (last rel) content mtime (dst @ rel) s1) (copy_files rest dst))"

definition copy :: "world \<Rightarrow> string \<Rightarrow> listing \<Rightarrow> path \<Rightarrow> folder \<Rightarrow> error + folder" where
  "copy w pattern src dst s = copy_files (files_to_copy w pattern src) dst s"

section \<open>Packaging\<close>

text \<open>
  \<open>os.walk(top)\<close>, top down: the folder, then each of its directories in turn. The
  model lists the folders visited, each by its entries; the files of one are the
  names of its entries that are not directories.
\<close>

fun os_walk :: "listing \<Rightarrow> listing list" where
  "os_walk folder =
     folder #
     concat (map (\<lambda>(n, node). case node of Dir sub \<Rightarrow> os_walk sub | File b t \<Rightarrow> []) folder)"

declare os_walk.simps [simp del]

definition files_of :: "listing \<Rightarrow> string list" where
  "files_of root = concat (map (\<lambda>(n, node). case node of File b t \<Rightarrow> [n] | Dir sub \<Rightarrow> []) root)"

definition endswith :: "string \<Rightarrow> string \<Rightarrow> bool" where
  "endswith s ending =
     (length ending \<le> length s \<and> drop (length s - length ending) s = ending)"

text \<open>The conditions of lines 124 and 132; the first argument of the second is \<open>os.name\<close>.\<close>

definition is_library :: "string \<Rightarrow> bool" where
  "is_library fname =
     (endswith fname ''.lib'' \<or> endswith fname ''.a'' \<or> endswith fname ''.so''
      \<or> endswith fname ''.dylib'')"

definition is_binary :: "string \<Rightarrow> string \<Rightarrow> bool" where
  "is_binary name fname =
     (name = ''nt'' \<and> (endswith fname ''.exe'' \<or> endswith fname ''.dll''))"

text \<open>
  The two loops of \<open>package()\<close> have one shape: for each folder of the walk, for each
  file of it that the condition selects, copy it to the destination.
\<close>

fun copy_selected ::
  "world \<Rightarrow> (string \<Rightarrow> bool) \<Rightarrow> listing \<Rightarrow> string list \<Rightarrow> path \<Rightarrow> folder \<Rightarrow> error + folder" where
  "copy_selected w wanted root [] dst s = Inr s"
| "copy_selected w wanted root (fname # files) dst s =
     (if wanted fname then
        and_then (copy w fname root dst s) (copy_selected w wanted root files dst)
      else copy_selected w wanted root files dst s)"

fun copy_walk ::
  "world \<Rightarrow> (string \<Rightarrow> bool) \<Rightarrow> listing list \<Rightarrow> path \<Rightarrow> folder \<Rightarrow> error + folder" where
  "copy_walk w wanted [] dst s = Inr s"
| "copy_walk w wanted (root # rest) dst s =
     and_then (copy_selected w wanted root (files_of root) dst s) (copy_walk w wanted rest dst)"

definition package :: "world \<Rightarrow> recipe \<Rightarrow> folder \<Rightarrow> error + folder" where
  "package w self pkg =
     and_then (makedirs [''licenses''] pkg) (\<lambda>pkg1.
     and_then (extracted_license (source_folder w)) (\<lambda>license_text.
     and_then (save [''licenses'', ''LICENSE''] license_text (now w) pkg1) (\<lambda>pkg2.
     and_then (copy w ''tinyexr.h'' (source_folder w) [''include''] pkg2) (\<lambda>pkg3.
     if \<not> getattr_header_only self then
       and_then (makedirs [''lib''] pkg3) (\<lambda>pkg4.
       and_then (copy_walk w is_library (os_walk (build_folder w)) [''lib''] pkg4) (\<lambda>pkg5.
       and_then (makedirs [''bin''] pkg5) (\<lambda>pkg6.
       copy_walk w (is_binary (os_name w)) (os_walk (build_folder w)) [''bin''] pkg6)))
     else Inr pkg3))))"

section \<open>Example inputs\<close>

text \<open>
  A recipe with the default options on Linux, no language standard configured and
  \<open>source()\<close> not yet run; a source tree that holds the header alone; and the
  \<open>conandata\<close> entry of one version.
\<close>

definition example_recipe :: recipe where
  "example_recipe =
     \<lparr>version = ''1.0.8'', opts = default_options,
      sets = \<lparr>os = ''Linux'', arch = ''x86_64'', compiler = ''gcc'',
              build_type = ''Release'', cppstd = None\<rparr>,
      header_only = None\<rparr>"

definition header_tree :: listing where
  "header_tree =
     [(''tinyexr.h'', File ''/* TinyEXR */\<newline>#pragma once\<newline>'' 10)]"

definition example_sources :: "string \<rightharpoonup> nat" where
  "example_sources = [''1.0.8'' \<mapsto> 0]"

text \<open>The same recipe with threads enabled and the GNU dialect of C++03 configured.\<close>

definition old_standard_recipe :: recipe where
  "old_standard_recipe =
     example_recipe\<lparr>opts := default_options\<lparr>with_thread := True\<rparr>,
                    sets := (sets example_recipe)\<lparr>cppstd := Some ''gnu03''\<rparr>\<rparr>"

definition all_tools_work :: tools where
  "all_tools_work = \<lparr>patches_apply = True, cmake_configures = True, cmake_builds = True\<rparr>"

text \<open>
  The worlds of the examples hold no file whose name has a wildcard character, so
  \<open>fnmatch\<close> is never asked in them; they carry the function that matches nothing.
\<close>

definition header_world :: world where
  "header_world =
     \<lparr>source_folder = header_tree, build_folder = [], os_name = ''posix'', now = 50,
      fnmatch = (\<lambda>name pattern. False)\<rparr>"




text \<open>What stands at a path after a run, or the error of the run.\<close>

definition entry_at :: "error + folder \<Rightarrow> path \<Rightarrow> error + entry option" where
  "entry_at r q = (case r of Inl e \<Rightarrow> Inl e | Inr s \<Rightarrow> Inr (s q))"

section \<open>Properties of folders and of file names\<close>

text \<open>
  The contents of a package folder, without the times: at each path nothing, a
  directory (\<open>Some None\<close>), or a file with its bytes.
\<close>

definition bytes_of :: "entry option \<Rightarrow> bytes option option" where
  "bytes_of e = map_option (\<lambda>x. case x of RegularFile c m \<Rightarrow> Some c | Directory \<Rightarrow> None) e"



text \<open>
  A plain file name has none of the characters \<open>*\<close>, \<open>?\<close> and \<open>[\<close> and no path
  separator.
\<close>

definition plain_name :: "world \<Rightarrow> string \<Rightarrow> bool" where
  "plain_name w fname = (wildcard_free fname \<and> set (os_sep (os_name w)) \<inter> set fname = {})"

text \<open>
  In a well-formed folder every entry lies in a directory. \<open>made q s\<close> is \<open>s\<close> with
  a directory at \<open>q\<close> and at every path above it.
\<close>

definition well_formed :: "folder \<Rightarrow> bool" where
  "well_formed s =
     (\<forall>q. s q \<noteq> None \<longrightarrow> q \<noteq> [] \<and> (butlast q = [] \<or> s (butlast q) = Some Directory))"


definition no_file :: "entry option \<Rightarrow> bool" where
  "no_file e = (case e of Some (RegularFile b t) \<Rightarrow> False | _ \<Rightarrow> True)"

section \<open>Replaying a run\<close>











text \<open>
  A folder is flat at a name when the entry of that name is not a file and nothing
  directly in it is a directory. A step adds to a name when all it changes is to make
  the directory of that name and to put files of a given set directly into it.
\<close>

definition flat :: "string \<Rightarrow> folder \<Rightarrow> bool" where
  "flat d s = ((\<forall>n. s [d, n] \<noteq> Some Directory) \<and> (\<forall>b t. s [d] \<noteq> Some (RegularFile b t)))"

definition adds :: "string \<Rightarrow> (path \<times> bytes \<times> nat) set \<Rightarrow> folder \<Rightarrow> folder \<Rightarrow> bool" where
  "adds d F s s' =
     (\<forall>q. s' q \<noteq> s q \<longrightarrow>
        (q = [d] \<and> s' q = Some Directory)
        \<or> (\<exists>n b t. q = [d, n] \<and> ([n], b, t) \<in> F \<and> s' q = Some (RegularFile b t)))"

text \<open>
  \<open>package()\<close> in two halves, once the license text is known: the license and the
  header, then the libraries and binaries.
\<close>

definition package_head :: "world \<Rightarrow> string \<Rightarrow> folder \<Rightarrow> error + folder" where
  "package_head w license_text pkg =
     and_then (makedirs [''licenses''] pkg) (\<lambda>pkg1.
     and_then (save [''licenses'', ''LICENSE''] license_text (now w) pkg1)
       (copy w ''tinyexr.h'' (source_folder w) [''include'']))"

definition package_tail :: "world \<Rightarrow> recipe \<Rightarrow> folder \<Rightarrow> error + folder" where
  "package_tail w self pkg3 =
     (if \<not> getattr_header_only self then
        and_then (makedirs [''lib''] pkg3) (\<lambda>pkg4.
        and_then (copy_walk w is_library (os_walk (build_folder w)) [''lib''] pkg4) (\<lambda>pkg5.
        and_then (makedirs [''bin''] pkg5)
          (copy_walk w (is_binary (os_name w)) (os_walk (build_folder w)) [''bin''])))
      else Inr pkg3)"

section \<open>The license fallback\<close>

text \<open>
  The loop of \<open>_extracted_license\<close> runs over \<open>range(min(0, n), min(40, n))\<close> for a
  header of \<open>n\<close> lines. The lower bound is 0 whatever \<open>n\<close> is, so the loop reads
  the first \<open>min(40, n)\<close> lines.
\<close>

lemma extract_loop_range:
  "a + n \<le> length ls \<Longrightarrow>
   extract_loop ls (map (\<lambda>k. int a + int k) [0..<n]) acc
     = Inr (acc @ map rstrip_newline (take n (drop a ls)))"
proof (induction n arbitrary: a acc)
  case 0 then show ?case by simp
next
  case (Suc n)
  have "[0..<Suc n] = 0 # map Suc [0..<n]"
    by (simp add: upt_conv_Cons map_Suc_upt del: upt_Suc)
  then have r: "map (\<lambda>k. int a + int k) [0..<Suc n] = int a # map (\<lambda>k. int (Suc a) + int k) [0..<n]"
    by (simp add: o_def add.assoc add.commute del: upt_Suc)
  from Suc.prems have g: "getitem ls (int a) = Inr (ls ! a)"
    by (simp add: getitem_def)
  from Suc.prems have d: "drop a ls = ls ! a # drop (Suc a) ls"
    by (simp add: Cons_nth_drop_Suc)
  show ?case using Suc.IH[of "Suc a" "acc @ [rstrip_newline (ls ! a)]"] Suc.prems
    by (simp only: r extract_loop.simps g sum.case d) simp
qed

lemma extract_loop_first_lines:
  "extract_loop ls (py_range (min 0 (int (length ls))) (min 40 (int (length ls)))) []
     = Inr (map rstrip_newline (take 40 ls))"
proof -
  have m: "min 0 (int (length ls)) = 0" by simp
  have n: "nat (min 40 (int (length ls)) - 0) = min 40 (length ls)" by simp
  have t: "take (min 40 (length ls)) ls = take 40 ls"
    by (cases "40 \<le> length ls") (simp_all add: min_def)
  show ?thesis
    unfolding py_range_def m n
    using extract_loop_range[of 0 "min 40 (length ls)" ls "[]"] by (simp add: t)
qed

text \<open>
  Claim C1, as amended. When the source tree has no regular file \<open>LICENSE\<close> and
  \<open>tinyexr.h\<close> is a regular file that decodes as UTF-8, \<open>_extracted_license\<close>
  returns the first 40 lines of the header (all of them when there are fewer), each
  without its line end, joined by line ends: the loop extracts
  \<open>min(40, n)\<close> lines of the \<open>n\<close> the header has, not zero.
\<close>

theorem license_fallback_first_lines:
  assumes "\<not> isfile src ''LICENSE''"
    and "map_of src ''tinyexr.h'' = Some (File b t)"
    and "read_text b = Inr content"
  shows "extracted_license src
           = Inr (join ''\<newline>'' (map rstrip_newline (take 40 (readlines content))))
         \<and> extract_loop (readlines content)
             (py_range (min 0 (int (length (readlines content))))
                       (min 40 (int (length (readlines content))))) []
           = Inr (map rstrip_newline (take 40 (readlines content)))
         \<and> length (map rstrip_newline (take 40 (readlines content)))
           = min 40 (length (readlines content))"
proof -
  let ?ls = "readlines content"
  have loop: "extract_loop ?ls (py_range (min 0 (int (length ?ls))) (min 40 (int (length ?ls)))) []
                = Inr (map rstrip_newline (take 40 ?ls))"
    by (rule extract_loop_first_lines)
  from assms(1) have skip:
    "(case map_of src ''LICENSE'' of Some (File b t) \<Rightarrow> read_text b | _ \<Rightarrow> X) = X" for X
    by (auto simp: isfile_def split: option.splits fsnode.splits)
  have "extracted_license src
          = and_then (extract_loop ?ls (py_range (min 0 (int (length ?ls))) (min 40 (int (length ?ls)))) [])
              (\<lambda>license_content. Inr (join ''\<newline>'' license_content))"
    unfolding extracted_license_def skip using assms(2,3)
    by (simp add: and_then_def Let_def)
  then have "extracted_license src = Inr (join ''\<newline>'' (map rstrip_newline (take 40 ?ls)))"
    unfolding loop by (simp add: and_then_def)
  moreover have "length (map rstrip_newline (take 40 ?ls)) = min 40 (length ?ls)"
    by (simp add: min.commute)
  ultimately show ?thesis using loop by blast
qed

theorem license_fallback_first_lines_witness:
  "\<not> isfile header_tree ''LICENSE'' \<and> isfile header_tree ''tinyexr.h''
   \<and> extracted_license header_tree = Inr ''/* TinyEXR */\<newline>#pragma once''"
proof -
  have a: "\<not> isfile header_tree ''LICENSE''" by (simp add: isfile_def header_tree_def)
  have b: "map_of header_tree ''tinyexr.h''
             = Some (File ''/* TinyEXR */\<newline>#pragma once\<newline>'' 10)"
    by (simp add: header_tree_def)
  have c: "read_text ''/* TinyEXR */\<newline>#pragma once\<newline>''
             = Inr ''/* TinyEXR */\<newline>#pragma once\<newline>''"
    by (simp add: read_text_def)
  have d: "readlines ''/* TinyEXR */\<newline>#pragma once\<newline>''
             = [''/* TinyEXR */\<newline>'', ''#pragma once\<newline>'']"
    by (simp add: readlines_def)
  show ?thesis
    using license_fallback_first_lines[OF a b c] a
    by (simp add: d rstrip_newline_def isfile_def header_tree_def)
qed

text \<open>
  The claim as stated fails on a header of two lines: with no \<open>LICENSE\<close> in the
  tree, the extracted text is both lines, not the empty string.
\<close>

theorem license_fallback_not_empty:
  "\<not> isfile header_tree ''LICENSE'' \<and> isfile header_tree ''tinyexr.h''
   \<and> extracted_license header_tree = Inr ''/* TinyEXR */\<newline>#pragma once''
   \<and> extracted_license header_tree \<noteq> Inr []"
  by (simp add: isfile_def header_tree_def extracted_license_def read_text_def and_then_def
      readlines_def py_range_def getitem_def rstrip_newline_def Let_def upt_conv_Cons)

section \<open>Build-mode detection\<close>

lemma source_sets_attribute:
  assumes "source conan_sources get self = Inr (self', tree)"
  shows "header_only self' = Some (''tinyexr.cc'' \<notin> fst ` set tree)"
proof -
  have "path_exists t n \<longleftrightarrow> n \<in> fst ` set t" for t :: listing and n
    by (simp add: path_exists_def map_of_eq_None_iff)
  with assms show ?thesis
    by (auto simp: source_def split: option.splits sum.splits)
qed

text \<open>
  Claim C2. After a \<open>source()\<close> that succeeds, the recipe reads as header-only
  exactly when no entry named \<open>tinyexr.cc\<close> stands at the root of the source
  tree, and any other successful \<open>source()\<close> on a tree with the same names at its
  root, whatever recipe it starts from, detects the same mode.
\<close>

theorem source_detects_build_mode:
  assumes "source conan_sources get self = Inr (self', tree)"
  shows "(getattr_header_only self' \<longleftrightarrow> ''tinyexr.cc'' \<notin> fst ` set tree)
         \<and> (\<forall>other other' tree'.
               source conan_sources' get' other = Inr (other', tree')
               \<and> fst ` set tree' = fst ` set tree
               \<longrightarrow> getattr_header_only other' = getattr_header_only self')"
proof -
  from assms have mine: "header_only self' = Some (''tinyexr.cc'' \<notin> fst ` set tree)"
    by (rule source_sets_attribute)
  have theirs: "header_only other' = Some (''tinyexr.cc'' \<notin> fst ` set tree')"
    if "source conan_sources' get' other = Inr (other', tree')" for other other' tree'
    using that by (rule source_sets_attribute)
  show ?thesis
  proof (intro conjI allI impI)
    show "getattr_header_only self' \<longleftrightarrow> ''tinyexr.cc'' \<notin> fst ` set tree"
      using mine by (simp add: getattr_header_only_def)
  next
    fix other other' tree'
    assume a: "source conan_sources' get' other = Inr (other', tree')
               \<and> fst ` set tree' = fst ` set tree"
    then have "header_only other' = Some (''tinyexr.cc'' \<notin> fst ` set tree')"
      using theirs by blast
    with a mine show "getattr_header_only other' = getattr_header_only self'"
      by (simp add: getattr_header_only_def)
  qed
qed

theorem source_detects_build_mode_witness:
  "source example_sources (\<lambda>u. Inr header_tree) example_recipe
     = Inr (example_recipe\<lparr>header_only := Some True\<rparr>, header_tree)
   \<and> getattr_header_only (example_recipe\<lparr>header_only := Some True\<rparr>)
   \<and> ''tinyexr.cc'' \<notin> fst ` set header_tree"
proof -
  have s: "source example_sources (\<lambda>u. Inr header_tree) example_recipe
     = Inr (example_recipe\<lparr>header_only := Some True\<rparr>, header_tree)"
    by (simp add: source_def example_sources_def example_recipe_def header_tree_def path_exists_def)
  show ?thesis
    using source_detects_build_mode[OF s, of example_sources "\<lambda>u. Inr header_tree"] s
    by (simp add: header_tree_def)
qed

section \<open>Consumer information\<close>

text \<open>
  Claim C4. \<open>package_info()\<close> appends exactly five defines, in this order:
  \<open>TINYEXR_USE_MINIZ\<close>, \<open>TINYEXR_USE_PIZ\<close>, \<open>TINYEXR_USE_ZFP\<close>,
  \<open>TINYEXR_USE_THREAD\<close>, \<open>TINYEXR_USE_OPENMP\<close>, each \<open>=1\<close> when its option is
  enabled (\<open>with_z == "miniz"\<close> for the first) and \<open>=0\<close> otherwise, in both build
  modes; on the fresh \<open>cpp_info\<close> these are all the defines. The library list is
  empty for a header-only tree and \<open>["tinyexr"]\<close> otherwise.
\<close>

theorem package_info_defines:
  "cpp_defines (package_info self ci)
     = cpp_defines ci @
       [''TINYEXR_USE_MINIZ='' @ flag (with_z (opts self) = Miniz),
        ''TINYEXR_USE_PIZ='' @ flag (with_piz (opts self)),
        ''TINYEXR_USE_ZFP='' @ flag (with_zfp (opts self)),
        ''TINYEXR_USE_THREAD='' @ flag (with_thread (opts self)),
        ''TINYEXR_USE_OPENMP='' @ flag (with_openmp (opts self))]
   \<and> flag True = ''1'' \<and> flag False = ''0''
   \<and> cpp_defines new_cpp_info = []
   \<and> length (cpp_defines (package_info self new_cpp_info)) = 5
   \<and> libs (package_info self new_cpp_info)
     = (if getattr_header_only self then [] else [''tinyexr''])"
proof -
  have d: "cpp_defines (package_info self ci)
     = cpp_defines ci @
       [''TINYEXR_USE_MINIZ='' @ flag (with_z (opts self) = Miniz),
        ''TINYEXR_USE_PIZ='' @ flag (with_piz (opts self)),
        ''TINYEXR_USE_ZFP='' @ flag (with_zfp (opts self)),
        ''TINYEXR_USE_THREAD='' @ flag (with_thread (opts self)),
        ''TINYEXR_USE_OPENMP='' @ flag (with_openmp (opts self))]" for ci
    by (simp add: package_info_def Let_def)
  have l: "libs (package_info self ci)
             = (if getattr_header_only self then libs ci else [''tinyexr''])" for ci
    by (simp add: package_info_def Let_def)
  show ?thesis
    unfolding d l by (simp add: new_cpp_info_def flag_def)
qed

section \<open>Validation\<close>

lemma two_digits_Some:
  "two_digits s = Some n \<Longrightarrow>
     \<exists>d1 d2. s = [d1, d2] \<and> is_digit d1 \<and> is_digit d2 \<and> n = 10 * (of_char d1 - 48) + (of_char d2 - 48)"
  by (auto simp: two_digits_def split: list.splits if_splits)

lemma char_is: "(c = CHR ''1'') = (of_char c = (49::nat))" "(c = CHR ''9'') = (of_char c = (57::nat))"
  "(c = CHR ''8'') = (of_char c = (56::nat))" "(c = CHR ''g'') = (of_char c = (103::nat))"
  using of_char_eq_iff[of c "CHR ''1''", where ?'a = nat] of_char_eq_iff[of c "CHR ''9''", where ?'a = nat]
    of_char_eq_iff[of c "CHR ''8''", where ?'a = nat] of_char_eq_iff[of c "CHR ''g''", where ?'a = nat]
  by simp_all

lemma digits_have_no_gnu:
  assumes "is_digit d1" "is_digit d2"
  shows "remove_gnu [d1, d2] = [d1, d2]"
  using assms by (auto simp: is_digit_def char_is)

lemma digits_less:
  assumes "is_digit d1" "is_digit d2"
  shows "str_less (add_millennium [d1, d2]) ''2011''
           = ((if 10 * (of_char d1 - 48) + (of_char d2 - 48) = (98::nat) then 1998
               else 2000 + (10 * (of_char d1 - 48) + (of_char d2 - 48))) < (2011::nat))"
proof -
  define a :: nat where "a = of_char d1 - 48"
  define b :: nat where "b = of_char d2 - 48"
  from assms have a: "of_char d1 = a + 48" "a \<le> 9" and b: "of_char d2 = b + 48" "b \<le> 9"
    by (auto simp: is_digit_def a_def b_def)
  have lhs: "str_less (add_millennium [d1, d2]) ''2011''
               = ((a = 9 \<and> b = 8) \<or> a = 0 \<or> (a = 1 \<and> b = 0))"
    using a b by (auto simp: add_millennium_def char_is)
  have rhs: "((if 10 * a + b = 98 then 1998 else 2000 + (10 * a + b)) < (2011::nat))
               = ((a = 9 \<and> b = 8) \<or> a = 0 \<or> (a = 1 \<and> b = 0))"
    using a(2) b(2) by presburger
  show ?thesis
    unfolding lhs a_def[symmetric] b_def[symmetric] rhs ..
qed

lemma year_checked:
  assumes "standard_year c = Some y"
  shows "c \<noteq> []"
    and "str_less (add_millennium (remove_gnu c)) (add_millennium (remove_gnu ''11'')) = (y < 2011)"
proof -
  from assms obtain n where n: "two_digits (if take 3 c = ''gnu'' then drop 3 c else c) = Some n"
    and y: "y = (if n = 98 then 1998 else 2000 + n)"
    by (auto simp: standard_year_def)
  from two_digits_Some[OF n] obtain d1 d2 where
    d: "(if take 3 c = ''gnu'' then drop 3 c else c) = [d1, d2]" "is_digit d1" "is_digit d2"
    and v: "n = 10 * (of_char d1 - 48) + (of_char d2 - 48)"
    by blast
  from d(1) show "c \<noteq> []" by (auto split: if_splits)
  have "remove_gnu c = [d1, d2]"
  proof (cases "take 3 c = ''gnu''")
    case True
    with d(1) have "c = ''gnu'' @ [d1, d2]"
      by (metis append_take_drop_id)
    then show ?thesis using digits_have_no_gnu[OF d(2,3)] by simp
  next
    case False
    with d(1) show ?thesis using digits_have_no_gnu[OF d(2,3)] by simp
  qed
  then show "str_less (add_millennium (remove_gnu c)) (add_millennium (remove_gnu ''11'')) = (y < 2011)"
    using digits_less[OF d(2,3)] by (simp add: y v add_millennium_def)
qed

text \<open>The values Conan's settings offer for \<open>compiler.cppstd\<close> all name a standard.\<close>

lemma named_standards:
  "map standard_year
     [''98'', ''gnu98'', ''03'', ''gnu03'', ''11'', ''gnu11'', ''14'', ''gnu14'', ''17'', ''gnu17'',
      ''20'', ''gnu20'', ''23'', ''gnu23'', ''26'', ''gnu26'']
   = map Some [1998, 1998, 2003, 2003, 2011, 2011, 2014, 2014, 2017, 2017,
               2020, 2020, 2023, 2023, 2026, 2026]"
  by (simp add: standard_year_def two_digits_def is_digit_def)

text \<open>
  Claim C5. When the configured value of \<open>compiler.cppstd\<close>, if there is one, names
  a standard, \<open>validate()\<close> raises exactly when \<open>with_thread\<close> is enabled, a standard
  is configured and it is older than C++11; it raises nothing else; and with
  \<open>with_thread\<close> enabled and no standard configured it passes.
\<close>

theorem validate_fails_iff:
  assumes "\<forall>c. cppstd (sets self) = Some c \<longrightarrow> standard_year c \<noteq> None"
  shows "(validate self = Inl ConanInvalidConfiguration
            \<longleftrightarrow> with_thread (opts self)
                \<and> (\<exists>c y. cppstd (sets self) = Some c \<and> standard_year c = Some y \<and> y < 2011))
         \<and> (validate self = Inl ConanInvalidConfiguration \<or> validate self = Inr ())
         \<and> (with_thread (opts self) \<and> cppstd (sets self) = None \<longrightarrow> validate self = Inr ())"
proof (cases "cppstd (sets self)")
  case None
  then show ?thesis by (simp add: validate_def truthy_def)
next
  case (Some c)
  with assms obtain y where y: "standard_year c = Some y" by auto
  from year_checked[OF y] Some y show ?thesis
    by (simp add: validate_def truthy_def check_min_cppstd_def)
qed

theorem validate_fails_iff_witness:
  "validate old_standard_recipe = Inl ConanInvalidConfiguration
   \<and> with_thread (opts old_standard_recipe)
   \<and> cppstd (sets old_standard_recipe) = Some ''gnu03''
   \<and> standard_year ''gnu03'' = Some 2003
   \<and> validate (example_recipe\<lparr>opts := default_options\<lparr>with_thread := True\<rparr>\<rparr>) = Inr ()"
proof -
  have y: "standard_year ''gnu03'' = Some 2003"
    by (simp add: standard_year_def two_digits_def is_digit_def)
  have a: "\<forall>c. cppstd (sets old_standard_recipe) = Some c \<longrightarrow> standard_year c \<noteq> None"
    by (simp add: old_standard_recipe_def example_recipe_def y)
  have b: "\<forall>c. cppstd (sets (example_recipe\<lparr>opts := default_options\<lparr>with_thread := True\<rparr>\<rparr>)) = Some c
             \<longrightarrow> standard_year c \<noteq> None"
    by (simp add: example_recipe_def)
  show ?thesis
    using validate_fails_iff[OF a] validate_fails_iff[OF b] y
    by (simp add: old_standard_recipe_def example_recipe_def)
qed

section \<open>Requirements\<close>

text \<open>
  Claim C6. The requirements of a fresh recipe have no duplicates; \<open>miniz/3.0.2\<close>
  is among them exactly when \<open>with_z\<close> is \<open>miniz\<close>, the zlib range exactly when it
  is \<open>zlib\<close>, so exactly one of the two; \<open>zfp/1.0.0\<close> exactly when \<open>with_zfp\<close>
  is set; there is nothing else; and two recipes that agree on \<open>with_z\<close> and
  \<open>with_zfp\<close> get the same list in the same order.
\<close>

theorem requirements_selected:
  "distinct (requirements self [])
   \<and> (''miniz/3.0.2'' \<in> set (requirements self []) \<longleftrightarrow> with_z (opts self) = Miniz)
   \<and> (''zlib/[>=1.2.11 <2]'' \<in> set (requirements self []) \<longleftrightarrow> with_z (opts self) = Zlib)
   \<and> ((''miniz/3.0.2'' \<in> set (requirements self []))
        \<noteq> (''zlib/[>=1.2.11 <2]'' \<in> set (requirements self [])))
   \<and> (''zfp/1.0.0'' \<in> set (requirements self []) \<longleftrightarrow> with_zfp (opts self))
   \<and> set (requirements self []) \<subseteq> {''miniz/3.0.2'', ''zlib/[>=1.2.11 <2]'', ''zfp/1.0.0''}
   \<and> (with_z (opts self) = with_z (opts other) \<and> with_zfp (opts self) = with_zfp (opts other)
        \<longrightarrow> requirements self [] = requirements other [])"
  by (cases "with_z (opts self)"; cases "with_z (opts other)")
     (simp_all add: requirements_def requires_def Let_def)

theorem requirements_selected_witness:
  "requirements example_recipe [] = [''miniz/3.0.2'']
   \<and> requirements (example_recipe\<lparr>header_only := Some True\<rparr>) [] = requirements example_recipe []
   \<and> requirements (example_recipe\<lparr>opts := default_options\<lparr>with_z := Zlib, with_zfp := True\<rparr>\<rparr>) []
       = [''zlib/[>=1.2.11 <2]'', ''zfp/1.0.0'']"
  using requirements_selected[of example_recipe "example_recipe\<lparr>header_only := Some True\<rparr>"]
  by (simp add: requirements_def requires_def example_recipe_def default_options_def Let_def)

section \<open>Generate and build\<close>

text \<open>
  Claim C8. When the recipe reads as header-only, \<open>generate()\<close> produces nothing
  and \<open>build()\<close> calls neither the CMake configure step nor the CMake build step,
  only the patches; so whenever one of them runs or something is generated, the recipe
  does not read as header-only. A recipe reads so after \<open>source()\<close> has unpacked a
  tree with no \<open>tinyexr.cc\<close> at its root. Otherwise the toolchain and the
  dependency files are generated and CMake is configured and run once the step before
  has succeeded.
\<close>

theorem header_only_runs_no_toolchain:
  "(getattr_header_only self \<longrightarrow>
      generate self = []
      \<and> CMakeConfigure \<notin> set (fst (build t self))
      \<and> CMakeBuild \<notin> set (fst (build t self))
      \<and> fst (build t self) = [ApplyPatches])
   \<and> (\<forall>conan_sources get before tree.
         source conan_sources get before = Inr (self, tree) \<and> ''tinyexr.cc'' \<notin> fst ` set tree
         \<longrightarrow> generate self = [] \<and> fst (build t self) = [ApplyPatches])
   \<and> (CMakeConfigure \<in> set (fst (build t self)) \<or> CMakeBuild \<in> set (fst (build t self))
        \<or> generate self \<noteq> [] \<longrightarrow> \<not> getattr_header_only self)
   \<and> (\<not> getattr_header_only self \<longrightarrow>
        generate self = [CMakeToolchain (toolchain_variables self), CMakeDeps]
        \<and> (patches_apply t \<longrightarrow> CMakeConfigure \<in> set (fst (build t self)))
        \<and> (patches_apply t \<and> cmake_configures t \<longrightarrow> CMakeBuild \<in> set (fst (build t self))))"
proof -
  have skipped: "generate self = [] \<and> CMakeConfigure \<notin> set (fst (build t self))
                 \<and> CMakeBuild \<notin> set (fst (build t self))
                 \<and> fst (build t self) = [ApplyPatches]"
    if "getattr_header_only self"
    using that by (simp add: generate_def build_def)
  have detected: "getattr_header_only self"
    if "source conan_sources get before = Inr (self, tree) \<and> ''tinyexr.cc'' \<notin> fst ` set tree"
    for conan_sources :: "string \<rightharpoonup> 'a" and get before tree
    using that source_sets_attribute[of conan_sources get before self tree]
    by (simp add: getattr_header_only_def)
  have compiled: "generate self = [CMakeToolchain (toolchain_variables self), CMakeDeps]
        \<and> (patches_apply t \<longrightarrow> CMakeConfigure \<in> set (fst (build t self)))
        \<and> (patches_apply t \<and> cmake_configures t \<longrightarrow> CMakeBuild \<in> set (fst (build t self)))"
    if "\<not> getattr_header_only self"
    using that by (simp add: generate_def build_def)
  show ?thesis
  proof (intro conjI allI impI)
    fix conan_sources :: "string \<rightharpoonup> 'a" and get before tree
    assume "source conan_sources get before = Inr (self, tree) \<and> ''tinyexr.cc'' \<notin> fst ` set tree"
    then have h: "getattr_header_only self" by (rule detected)
    from skipped[OF h] show "generate self = []" by simp
    from skipped[OF h] show "fst (build t self) = [ApplyPatches]" by simp
  next
    assume "CMakeConfigure \<in> set (fst (build t self)) \<or> CMakeBuild \<in> set (fst (build t self))
            \<or> generate self \<noteq> []"
    with skipped show "\<not> getattr_header_only self" by blast
  qed (use skipped compiled in blast)+
qed

theorem header_only_runs_no_toolchain_witness:
  "getattr_header_only (example_recipe\<lparr>header_only := Some True\<rparr>)
   \<and> generate (example_recipe\<lparr>header_only := Some True\<rparr>) = []
   \<and> fst (build all_tools_work (example_recipe\<lparr>header_only := Some True\<rparr>)) = [ApplyPatches]
   \<and> \<not> getattr_header_only (example_recipe\<lparr>header_only := Some False\<rparr>)
   \<and> CMakeBuild \<in> set (fst (build all_tools_work (example_recipe\<lparr>header_only := Some False\<rparr>)))"
proof -
  have a: "getattr_header_only (example_recipe\<lparr>header_only := Some True\<rparr>)"
    and b: "\<not> getattr_header_only (example_recipe\<lparr>header_only := Some False\<rparr>)"
    by (simp_all add: getattr_header_only_def)
  have c: "patches_apply all_tools_work \<and> cmake_configures all_tools_work"
    by (simp add: all_tools_work_def)
  from a header_only_runs_no_toolchain[of "example_recipe\<lparr>header_only := Some True\<rparr>" all_tools_work]
  have "generate (example_recipe\<lparr>header_only := Some True\<rparr>) = []
        \<and> fst (build all_tools_work (example_recipe\<lparr>header_only := Some True\<rparr>)) = [ApplyPatches]"
    by blast
  moreover from b c
    header_only_runs_no_toolchain[of "example_recipe\<lparr>header_only := Some False\<rparr>" all_tools_work]
  have "CMakeBuild \<in> set (fst (build all_tools_work (example_recipe\<lparr>header_only := Some False\<rparr>)))"
    by blast
  ultimately show ?thesis using a b by blast
qed

section \<open>Package identity\<close>

text \<open>
  Claim C9. When the tree was detected as header-only, \<open>package_id()\<close> clears the
  package information, so two such recipes end with the same information whatever
  their settings and options are. Otherwise the information is left as it was, and
  recipes that differ in a setting keep different information.
\<close>

theorem package_id_header_only:
  "(getattr_header_only self \<and> getattr_header_only other
      \<longrightarrow> package_id self info = package_id other info'
          \<and> package_id self (initial_info self) = package_id other (initial_info other))
   \<and> (getattr_header_only self \<longrightarrow> package_id self info = clear info)
   \<and> (\<not> getattr_header_only self \<longrightarrow> package_id self info = info)
   \<and> (\<not> getattr_header_only self \<and> \<not> getattr_header_only other
        \<and> (os (sets self) \<noteq> os (sets other) \<or> arch (sets self) \<noteq> arch (sets other)
             \<or> compiler (sets self) \<noteq> compiler (sets other)
             \<or> build_type (sets self) \<noteq> build_type (sets other))
        \<longrightarrow> package_id self (initial_info self) \<noteq> package_id other (initial_info other))"
  by (auto simp: package_id_def clear_def initial_info_def)

theorem package_id_header_only_witness:
  "getattr_header_only (example_recipe\<lparr>header_only := Some True\<rparr>)
   \<and> package_id (example_recipe\<lparr>header_only := Some True\<rparr>)
        (initial_info (example_recipe\<lparr>header_only := Some True\<rparr>))
      = \<lparr>info_settings = [], info_options = [], info_requires = []\<rparr>
   \<and> package_id example_recipe (initial_info example_recipe) = initial_info example_recipe"
  using package_id_header_only[of "example_recipe\<lparr>header_only := Some True\<rparr>"
      "example_recipe\<lparr>header_only := Some True\<rparr>"
      "initial_info (example_recipe\<lparr>header_only := Some True\<rparr>)"
      "initial_info (example_recipe\<lparr>header_only := Some True\<rparr>)"]
    package_id_header_only[of example_recipe example_recipe "initial_info example_recipe"
      "initial_info example_recipe"]
  by (simp add: getattr_header_only_def clear_def example_recipe_def)

section \<open>Facts about the package folder\<close>

lemma and_then_assoc:
  "and_then (and_then r f) g = and_then r (\<lambda>x. and_then (f x) g)"
  by (simp add: and_then_def split: sum.splits)



lemma well_formed_root: "well_formed s \<Longrightarrow> s [] = None"
  by (auto simp: well_formed_def)







lemma no_file_simps:
  "no_file None" "no_file (Some Directory)" "\<not> no_file (Some (RegularFile b t))"
  by (simp_all add: no_file_def)






lemma bytes_of_dir [simp]:
  "bytes_of e = bytes_of (Some Directory) \<longleftrightarrow> e = Some Directory"
  "bytes_of (Some Directory) = bytes_of e \<longleftrightarrow> e = Some Directory"
  by (cases e; auto simp: bytes_of_def split: entry.splits)+

lemma bytes_of_none [simp]:
  "bytes_of e = bytes_of None \<longleftrightarrow> e = None"
  "bytes_of None = bytes_of e \<longleftrightarrow> e = None"
  by (cases e; auto simp: bytes_of_def split: entry.splits)+

lemma bytes_of_file:
  "bytes_of e = bytes_of (Some (RegularFile c m)) \<longleftrightarrow> (\<exists>m'. e = Some (RegularFile c m'))"
  by (cases e; auto simp: bytes_of_def split: entry.splits)

lemma bytes_of_file_same [simp]:
  "bytes_of (Some (RegularFile c m)) = bytes_of (Some (RegularFile c' m')) \<longleftrightarrow> c = c'"
  by (auto simp: bytes_of_def)















lemma write_file_ok:
  "write_file q c m s = Inr s' \<longleftrightarrow>
     q \<noteq> [] \<and> s q \<noteq> Some Directory
     \<and> (butlast q = [] \<or> s (butlast q) = Some Directory)
     \<and> s' = s(q \<mapsto> RegularFile c m)"
  by (auto simp: write_file_def isdir_def parent_error_def split: option.splits entry.splits)










section \<open>Replaying the copies\<close>










lemma package_split:
  "package w self pkg =
     (case extracted_license (source_folder w) of
        Inl e \<Rightarrow> (case makedirs [''licenses''] pkg of Inl e' \<Rightarrow> Inl e' | Inr p \<Rightarrow> Inl e)
      | Inr license_text \<Rightarrow> and_then (package_head w license_text pkg) (package_tail w self))"
  by (simp add: package_def package_head_def package_tail_def and_then_def split: sum.splits)




section \<open>Plain names and flat folders\<close>

lemma lower_char_sep:
  assumes "c = CHR ''/'' \<or> c = CHR 0x5C"
  shows "lower_char x = c \<longleftrightarrow> x = c"
proof (cases "(65::nat) \<le> of_char x \<and> of_char x \<le> (90::nat)")
  case False
  then show ?thesis by (auto simp: lower_char_def)
next
  case True
  then have "(of_char (char_of (of_char x + (32::nat)) :: char) :: nat) = of_char x + 32"
    by (simp add: of_char_of)
  with True have "(of_char (char_of (of_char x + (32::nat)) :: char) :: nat) \<noteq> of_char c"
    using assms by auto
  then have "char_of (of_char x + (32::nat)) \<noteq> c" by auto
  moreover from True assms have "x \<noteq> c" by auto
  ultimately show ?thesis using True by (simp add: lower_char_def)
qed

lemma lower_sep:
  assumes "c = CHR ''/'' \<or> c = CHR 0x5C"
  shows "c \<in> set (lower s) \<longleftrightarrow> c \<in> set s"
proof -
  have "c \<in> set (lower s) \<longleftrightarrow> (\<exists>x \<in> set s. lower_char x = c)"
    by (auto simp: lower_def)
  also have "\<dots> \<longleftrightarrow> (\<exists>x \<in> set s. x = c)"
    unfolding lower_char_sep[OF assms] ..
  finally show ?thesis by simp
qed

lemma os_sep_cases: "os_sep name = [CHR ''/''] \<or> os_sep name = [CHR 0x5C]"
  by (simp add: os_sep_def)

lemma rel_files_nonempty: "(rel, b, t) \<in> set (rel_files src) \<Longrightarrow> rel \<noteq> []"
  by (subst (asm) rel_files.simps) (auto split: fsnode.splits)

lemma rel_files_root: "([n], b, t) \<in> set (rel_files src) \<longleftrightarrow> (n, File b t) \<in> set src"
proof
  assume "([n], b, t) \<in> set (rel_files src)"
  then show "(n, File b t) \<in> set src"
    by (subst (asm) rel_files.simps) (auto split: fsnode.splits dest: rel_files_nonempty)
next
  assume "(n, File b t) \<in> set src"
  then show "([n], b, t) \<in> set (rel_files src)"
    by (subst rel_files.simps) force
qed

lemma pattern_matches_plain:
  assumes "plain_name w p" and "rel \<noteq> []"
  shows "pattern_matches w p rel \<longleftrightarrow> (\<exists>n. rel = [n] \<and> lower n = lower p)"
proof -
  from assms(1) have wf: "wildcard_free p" and ns: "set (os_sep (os_name w)) \<inter> set p = {}"
    by (simp_all add: plain_name_def)
  obtain c where c: "os_sep (os_name w) = [c]" and cc: "c = CHR ''/'' \<or> c = CHR 0x5C"
    using os_sep_cases[of "os_name w"] by auto
  from ns c have "c \<notin> set p" by simp
  with cc have np: "c \<notin> set (lower p)" by (simp add: lower_sep)
  show ?thesis
  proof (cases rel)
    case Nil with assms(2) show ?thesis by simp
  next
    case (Cons x r)
    show ?thesis
    proof (cases r)
      case Nil
      with Cons wf show ?thesis by (simp add: pattern_matches_def)
    next
      case (Cons y r')
      have "c \<in> set (join (os_sep (os_name w)) (x # y # r'))" by (simp add: c)
      with cc have "c \<in> set (lower (join (os_sep (os_name w)) (x # y # r')))"
        by (simp add: lower_sep)
      with np have "lower (join (os_sep (os_name w)) (x # y # r')) \<noteq> lower p" by auto
      with wf \<open>rel = x # r\<close> Cons show ?thesis by (simp add: pattern_matches_def)
    qed
  qed
qed

lemma files_to_copy_plain:
  assumes "plain_name w p"
  shows "(rel, b, t) \<in> set (files_to_copy w p src)
           \<longleftrightarrow> (\<exists>n. rel = [n] \<and> (n, File b t) \<in> set src \<and> lower n = lower p)"
proof -
  have "(rel, b, t) \<in> set (files_to_copy w p src)
          \<longleftrightarrow> (rel, b, t) \<in> set (rel_files src) \<and> pattern_matches w p rel"
    by (simp add: files_to_copy_def)
  also have "\<dots> \<longleftrightarrow> (rel, b, t) \<in> set (rel_files src) \<and> (\<exists>n. rel = [n] \<and> lower n = lower p)"
    using pattern_matches_plain[OF assms] rel_files_nonempty by blast
  also have "\<dots> \<longleftrightarrow> (\<exists>n. rel = [n] \<and> (n, File b t) \<in> set src \<and> lower n = lower p)"
    using rel_files_root by blast
  finally show ?thesis .
qed

lemma plain_header: "plain_name w ''tinyexr.h''"
  by (simp add: plain_name_def wildcard_free_def os_sep_def)

lemma makedirs_single:
  "makedirs [d] s =
     (case s [d] of
        None \<Rightarrow> Inr (s([d] \<mapsto> Directory))
      | Some Directory \<Rightarrow> Inr s
      | Some (RegularFile b t) \<Rightarrow> Inl FileExistsError)"
  by (subst makedirs.simps)
     (simp add: mkdir_def isdir_def folder_exists_def parent_error_def
        split: option.splits entry.splits)

lemma adds_refl: "adds d F s s"
  by (simp add: adds_def)

lemma adds_mono: "adds d F s s' \<Longrightarrow> F \<subseteq> G \<Longrightarrow> adds d G s s'"
  unfolding adds_def by blast

lemma adds_trans:
  assumes "adds d F s s1" and "adds d F s1 s'"
  shows "adds d F s s'"
  unfolding adds_def
proof (intro allI impI)
  fix q assume d: "s' q \<noteq> s q"
  show "(q = [d] \<and> s' q = Some Directory)
        \<or> (\<exists>n b t. q = [d, n] \<and> ([n], b, t) \<in> F \<and> s' q = Some (RegularFile b t))"
  proof (cases "s' q = s1 q")
    case False
    with assms(2) show ?thesis by (simp add: adds_def)
  next
    case True
    with d have "s1 q \<noteq> s q" by simp
    with assms(1) True show ?thesis by (simp add: adds_def)
  qed
qed

lemma adds_flat: "adds d F s s' \<Longrightarrow> flat d s \<Longrightarrow> flat d s'"
  unfolding adds_def flat_def by (metis entry.distinct(1) list.inject option.inject not_Cons_self2)

lemma adds_file:
  assumes "adds d F s s'" and "s [d, n] = Some (RegularFile b t)"
  shows "\<exists>b' t'. s' [d, n] = Some (RegularFile b' t')"
proof (cases "s' [d, n] = s [d, n]")
  case True with assms(2) show ?thesis by simp
next
  case False
  with assms(1) show ?thesis unfolding adds_def by blast
qed

lemma adds_dir:
  assumes "adds d F s s'" and "s [d] = Some Directory"
  shows "s' [d] = Some Directory"
proof (cases "s' [d] = s [d]")
  case True with assms(2) show ?thesis by simp
next
  case False
  with assms(1) have "([d] = [d] \<and> s' [d] = Some Directory)
      \<or> (\<exists>n b t. [d] = [d, n] \<and> ([n], b, t) \<in> F \<and> s' [d] = Some (RegularFile b t))"
    unfolding adds_def by blast
  then show ?thesis by simp
qed

lemma adds_outside:
  assumes "adds d F s s'" and "q = [] \<or> hd q \<noteq> d"
  shows "s' q = s q"
proof (rule ccontr)
  assume "s' q \<noteq> s q"
  with assms(1) have "q = [d] \<or> (\<exists>n. q = [d, n])" unfolding adds_def by blast
  with assms(2) show False by auto
qed

lemma copy_step_flat:
  assumes "flat d s"
  shows "\<exists>e. and_then (makedirs [d] s) (copy_file n c m [d, n])
                = Inr (s([d] \<mapsto> Directory, [d, n] \<mapsto> e))
            \<and> (e = RegularFile c m \<or> s [d, n] = Some e) \<and> (\<exists>b t. e = RegularFile b t)"
proof -
  let ?s1 = "s([d] \<mapsto> Directory)"
  from assms have m: "makedirs [d] s = Inr ?s1"
    by (auto simp: flat_def makedirs_single split: option.splits entry.splits)
  have w: "write_file [d, n] c m ?s1 = Inr (?s1([d, n] \<mapsto> RegularFile c m))"
    using assms by (simp add: write_file_ok flat_def)
  show ?thesis
  proof (cases "\<not> folder_exists [d, n] ?s1 \<or> \<not> filecmp c m (?s1 [d, n])")
    case True
    then have "copy_file n c m [d, n] ?s1 = Inr (?s1([d, n] \<mapsto> RegularFile c m))"
      using assms w by (simp add: copy_file_def copy2_def isdir_def flat_def)
    with m show ?thesis by (intro exI[of _ "RegularFile c m"]) (simp add: and_then_def)
  next
    case False
    then obtain b t where e: "s [d, n] = Some (RegularFile b t)"
      by (auto simp: filecmp_def split: option.splits entry.splits)
    from False have "copy_file n c m [d, n] ?s1 = Inr ?s1" by (simp add: copy_file_def)
    moreover have "?s1 = s([d] \<mapsto> Directory, [d, n] \<mapsto> RegularFile b t)"
      using e by (auto simp: fun_eq_iff)
    ultimately show ?thesis using m e
      by (intro exI[of _ "RegularFile b t"]) (simp add: and_then_def)
  qed
qed

lemma copy_files_flat:
  assumes "flat d s" and "\<forall>(rel, b, t) \<in> set files. \<exists>n. rel = [n]"
  shows "\<exists>s'. copy_files files [d] s = Inr s' \<and> adds d (set files) s s'
           \<and> (\<forall>n b t. ([n], b, t) \<in> set files \<longrightarrow> (\<exists>b' t'. s' [d, n] = Some (RegularFile b' t')))
           \<and> (files \<noteq> [] \<longrightarrow> s' [d] = Some Directory)"
  using assms
proof (induction files arbitrary: s)
  case Nil
  then show ?case by (simp add: adds_refl)
next
  case (Cons f files)
  from Cons.prems(2) obtain name content mtime where f: "f = ([name], content, mtime)"
    by (cases f) auto
  from copy_step_flat[OF Cons.prems(1), of name content mtime] obtain e where
    st: "and_then (makedirs [d] s) (copy_file name content mtime [d, name])
           = Inr (s([d] \<mapsto> Directory, [d, name] \<mapsto> e))"
    and e: "e = RegularFile content mtime \<or> s [d, name] = Some e"
    and ef: "\<exists>b t. e = RegularFile b t"
    by blast
  let ?s2 = "s([d] \<mapsto> Directory, [d, name] \<mapsto> e)"
  have "copy_files (f # files) [d] s
          = and_then (and_then (makedirs [d] s) (copy_file name content mtime [d, name]))
              (copy_files files [d])"
    by (simp add: f and_then_assoc)
  then have step: "copy_files (f # files) [d] s = copy_files files [d] ?s2"
    unfolding st by (simp add: and_then_def)
  have a2: "adds d (set (f # files)) s ?s2"
    unfolding adds_def using e by (auto simp: f)
  then have flat2: "flat d ?s2" using Cons.prems(1) by (rule adds_flat)
  from Cons.prems(2) have "\<forall>(rel, b, t) \<in> set files. \<exists>n. rel = [n]" by auto
  from Cons.IH[OF flat2 this] obtain s' where
    run: "copy_files files [d] ?s2 = Inr s'" and ad: "adds d (set files) ?s2 s'"
    and pr: "\<forall>n b t. ([n], b, t) \<in> set files \<longrightarrow> (\<exists>b' t'. s' [d, n] = Some (RegularFile b' t'))"
    by blast
  from ad have ad': "adds d (set (f # files)) ?s2 s'" by (rule adds_mono) auto
  with a2 have all: "adds d (set (f # files)) s s'" by (rule adds_trans)
  from ef obtain b t where "?s2 [d, name] = Some (RegularFile b t)" by auto
  with ad have here: "\<exists>b' t'. s' [d, name] = Some (RegularFile b' t')" by (rule adds_file)
  have "?s2 [d] = Some Directory" by simp
  with ad have top: "s' [d] = Some Directory" by (rule adds_dir)
  show ?case
    unfolding step using run all pr here top by (auto simp: f)
qed

lemma copy_flat:
  assumes "flat d s" and "plain_name w p"
  shows "\<exists>s'. copy w p src [d] s = Inr s' \<and> flat d s'
           \<and> adds d {([n], b, t) |n b t. (n, File b t) \<in> set src \<and> lower n = lower p} s s'
           \<and> (\<forall>n b t. (n, File b t) \<in> set src \<and> lower n = lower p
                  \<longrightarrow> s' [d] = Some Directory \<and> (\<exists>b' t'. s' [d, n] = Some (RegularFile b' t')))"
proof -
  let ?files = "files_to_copy w p src"
  note mem = files_to_copy_plain[OF assms(2), of _ _ _ src]
  have "\<forall>(rel, b, t) \<in> set ?files. \<exists>n. rel = [n]" using mem by blast
  from copy_files_flat[OF assms(1) this] obtain s' where
    run: "copy_files ?files [d] s = Inr s'" and ad: "adds d (set ?files) s s'"
    and pr: "\<forall>n b t. ([n], b, t) \<in> set ?files \<longrightarrow> (\<exists>b' t'. s' [d, n] = Some (RegularFile b' t'))"
    and top: "?files \<noteq> [] \<longrightarrow> s' [d] = Some Directory"
    by blast
  have "set ?files = {([n], b, t) |n b t. (n, File b t) \<in> set src \<and> lower n = lower p}"
    using mem by auto
  with ad have ad': "adds d {([n], b, t) |n b t. (n, File b t) \<in> set src \<and> lower n = lower p} s s'"
    by simp
  have "s' [d] = Some Directory \<and> (\<exists>b' t'. s' [d, n] = Some (RegularFile b' t'))"
    if "(n, File b t) \<in> set src \<and> lower n = lower p" for n b t
  proof -
    from that have i: "([n], b, t) \<in> set ?files" using mem by blast
    then have "?files \<noteq> []" by auto
    with top pr i show ?thesis by blast
  qed
  with run ad' adds_flat[OF ad assms(1)] show ?thesis by (auto simp: copy_def)
qed




lemma adds_at:
  "adds d F s s' \<Longrightarrow> s' q \<noteq> s q \<Longrightarrow>
     (q = [d] \<and> s' q = Some Directory)
     \<or> (\<exists>n b t. q = [d, n] \<and> ([n], b, t) \<in> F \<and> s' q = Some (RegularFile b t))"
  by (simp add: adds_def)

section \<open>Directories stay\<close>












lemma lower_header: "lower ''tinyexr.h'' = ''tinyexr.h''"
  by (simp add: lower_def lower_char_def)

section \<open>The two halves of packaging on a fresh folder\<close>

lemma package_head_fresh:
  "\<exists>pkg3. package_head w license_text Map.empty = Inr pkg3
      \<and> pkg3 [''licenses''] = Some Directory
      \<and> pkg3 [''licenses'', ''LICENSE''] = Some (RegularFile license_text (now w))
      \<and> (\<forall>q. pkg3 q \<noteq> None \<longrightarrow>
             q = [''licenses''] \<or> q = [''licenses'', ''LICENSE''] \<or> q = [''include'']
             \<or> (\<exists>n b t. q = [''include'', n] \<and> (n, File b t) \<in> set (source_folder w)
                   \<and> lower n = ''tinyexr.h'' \<and> pkg3 q = Some (RegularFile b t)))
      \<and> (\<forall>b t. (''tinyexr.h'', File b t) \<in> set (source_folder w) \<longrightarrow>
             pkg3 [''include''] = Some Directory
             \<and> (\<exists>b' t'. pkg3 [''include'', ''tinyexr.h''] = Some (RegularFile b' t')))"
proof -
  let ?p2 = "Map.empty([''licenses''] \<mapsto> Directory,
                       [''licenses'', ''LICENSE''] \<mapsto> RegularFile license_text (now w))"
  have lic: "and_then (makedirs [''licenses''] Map.empty)
               (save [''licenses'', ''LICENSE''] license_text (now w)) = Inr ?p2"
    by (simp add: makedirs_single save_def and_then_def write_file_ok)
  have "flat ''include'' ?p2" by (simp add: flat_def)
  from copy_flat[OF this plain_header, of w "source_folder w"] obtain pkg3 where
    run: "copy w ''tinyexr.h'' (source_folder w) [''include''] ?p2 = Inr pkg3"
    and ad: "adds ''include'' {([n], b, t) |n b t. (n, File b t) \<in> set (source_folder w)
                \<and> lower n = lower ''tinyexr.h''} ?p2 pkg3"
    and pr: "\<forall>n b t. (n, File b t) \<in> set (source_folder w) \<and> lower n = lower ''tinyexr.h''
                \<longrightarrow> pkg3 [''include''] = Some Directory
                    \<and> (\<exists>b' t'. pkg3 [''include'', n] = Some (RegularFile b' t'))"
    by blast
  have "package_head w license_text Map.empty
          = and_then (and_then (makedirs [''licenses''] Map.empty)
                        (save [''licenses'', ''LICENSE''] license_text (now w)))
              (copy w ''tinyexr.h'' (source_folder w) [''include''])"
    by (simp add: package_head_def and_then_assoc)
  then have pk: "package_head w license_text Map.empty = Inr pkg3"
    unfolding lic using run by (simp add: and_then_def)
  have same: "pkg3 q = ?p2 q" if "hd q \<noteq> ''include''" for q
    using adds_outside[OF ad, of q] that by simp
  have only: "q = [''licenses''] \<or> q = [''licenses'', ''LICENSE''] \<or> q = [''include'']
              \<or> (\<exists>n b t. q = [''include'', n] \<and> (n, File b t) \<in> set (source_folder w)
                    \<and> lower n = ''tinyexr.h'' \<and> pkg3 q = Some (RegularFile b t))"
    if "pkg3 q \<noteq> None" for q
  proof (cases "pkg3 q = ?p2 q")
    case True
    with that show ?thesis by (auto split: if_splits)
  next
    case False
    with ad have "(q = [''include''] \<and> pkg3 q = Some Directory)
        \<or> (\<exists>n b t. q = [''include'', n]
              \<and> ([n], b, t) \<in> {([n], b, t) |n b t. (n, File b t) \<in> set (source_folder w)
                                    \<and> lower n = lower ''tinyexr.h''}
              \<and> pkg3 q = Some (RegularFile b t))"
      by (rule adds_at)
    then show ?thesis unfolding lower_header by auto
  qed
  have hdr: "pkg3 [''include''] = Some Directory
             \<and> (\<exists>b' t'. pkg3 [''include'', ''tinyexr.h''] = Some (RegularFile b' t'))"
    if "(''tinyexr.h'', File b t) \<in> set (source_folder w)" for b t
    using pr[rule_format, of "''tinyexr.h''" b t] that by simp
  show ?thesis
    using pk same[of "[''licenses'']"] same[of "[''licenses'', ''LICENSE'']"] only hdr
    by (intro exI[of _ pkg3]) simp
qed


section \<open>The examples, evaluated\<close>

lemma files_to_copy_single:
  "wildcard_free n \<Longrightarrow> files_to_copy w n [(n, File c m)] = [([n], c, m)]"
  by (subst files_to_copy_def, subst rel_files.simps) (simp add: pattern_matches_def)















lemma header_license:
  "extracted_license header_tree = Inr ''/* TinyEXR */\<newline>#pragma once''"
  by (simp add: header_tree_def extracted_license_def read_text_def and_then_def
      readlines_def py_range_def getitem_def rstrip_newline_def Let_def upt_conv_Cons)

lemma header_files:
  "files_to_copy w ''tinyexr.h'' header_tree
     = [([''tinyexr.h''], ''/* TinyEXR */\<newline>#pragma once\<newline>'', 10)]"
  unfolding header_tree_def
  by (rule files_to_copy_single) (simp add: wildcard_free_def)

section \<open>Packaging a header-only tree\<close>

text \<open>
  Claim C3, as amended. For a header-only tree whose license text can be read,
  \<open>package()\<close> on a fresh package folder succeeds; it makes \<open>licenses\<close> and writes
  the license text to \<open>licenses/LICENSE\<close>; besides these the output holds only
  \<open>include\<close> and, in it, copies of the files at the root of the source tree that
  are named \<open>tinyexr.h\<close>, upper and lower case taken as equal; and no \<open>lib\<close> and
  no \<open>bin\<close> directory is made.
\<close>

theorem header_only_package:
  assumes "getattr_header_only self"
    and "extracted_license (source_folder w) = Inr license_text"
  shows "\<exists>pkg'. package w self Map.empty = Inr pkg'
           \<and> pkg' [''lib''] = None \<and> pkg' [''bin''] = None
           \<and> pkg' [''licenses''] = Some Directory
           \<and> pkg' [''licenses'', ''LICENSE''] = Some (RegularFile license_text (now w))
           \<and> (\<forall>q. pkg' q \<noteq> None \<longrightarrow>
                  q = [''licenses''] \<or> q = [''licenses'', ''LICENSE''] \<or> q = [''include'']
                  \<or> (\<exists>n b t. q = [''include'', n] \<and> (n, File b t) \<in> set (source_folder w)
                        \<and> lower n = ''tinyexr.h'' \<and> pkg' q = Some (RegularFile b t)))
           \<and> (\<forall>b t. (''tinyexr.h'', File b t) \<in> set (source_folder w) \<longrightarrow>
                  pkg' [''include''] = Some Directory
                  \<and> (\<exists>b' t'. pkg' [''include'', ''tinyexr.h''] = Some (RegularFile b' t')))"
proof -
  from package_head_fresh[of w license_text] obtain pkg3 where
    run: "package_head w license_text Map.empty = Inr pkg3"
    and l1: "pkg3 [''licenses''] = Some Directory"
    and l2: "pkg3 [''licenses'', ''LICENSE''] = Some (RegularFile license_text (now w))"
    and only: "\<forall>q. pkg3 q \<noteq> None \<longrightarrow>
             q = [''licenses''] \<or> q = [''licenses'', ''LICENSE''] \<or> q = [''include'']
             \<or> (\<exists>n b t. q = [''include'', n] \<and> (n, File b t) \<in> set (source_folder w)
                   \<and> lower n = ''tinyexr.h'' \<and> pkg3 q = Some (RegularFile b t))"
    and hdr: "\<forall>b t. (''tinyexr.h'', File b t) \<in> set (source_folder w) \<longrightarrow>
             pkg3 [''include''] = Some Directory
             \<and> (\<exists>b' t'. pkg3 [''include'', ''tinyexr.h''] = Some (RegularFile b' t'))"
    by blast
  have "package w self Map.empty = Inr pkg3"
    using assms run by (simp add: package_split package_tail_def and_then_def)
  moreover have "pkg3 [''lib''] = None"
    using only[rule_format, of "[''lib'']"] by (cases "pkg3 [''lib'']") auto
  moreover have "pkg3 [''bin''] = None"
    using only[rule_format, of "[''bin'']"] by (cases "pkg3 [''bin'']") auto
  ultimately show ?thesis using l1 l2 only hdr by (intro exI[of _ pkg3]) simp
qed

theorem header_only_package_witness:
  "getattr_header_only (example_recipe\<lparr>header_only := Some True\<rparr>)
   \<and> extracted_license (source_folder header_world) = Inr ''/* TinyEXR */\<newline>#pragma once''
   \<and> (\<exists>pkg'. package header_world (example_recipe\<lparr>header_only := Some True\<rparr>) Map.empty = Inr pkg'
          \<and> pkg' [''lib''] = None \<and> pkg' [''bin''] = None
          \<and> pkg' [''licenses'', ''LICENSE'']
               = Some (RegularFile ''/* TinyEXR */\<newline>#pragma once'' (now header_world))
          \<and> pkg' [''include''] = Some Directory)"
proof -
  have a: "getattr_header_only (example_recipe\<lparr>header_only := Some True\<rparr>)"
    by (simp add: getattr_header_only_def)
  have b: "extracted_license (source_folder header_world) = Inr ''/* TinyEXR */\<newline>#pragma once''"
    by (simp add: header_world_def header_license)
  have c: "(''tinyexr.h'', File ''/* TinyEXR */\<newline>#pragma once\<newline>'' 10)
             \<in> set (source_folder header_world)"
    by (simp add: header_world_def header_tree_def)
  from header_only_package[OF a b] c a b show ?thesis by blast
qed

text \<open>
  The claim as stated fails on the tree that holds the header alone: after
  \<open>package()\<close> on a fresh folder there is no \<open>lib\<close> and no \<open>bin\<close>, and the
  output holds a file that is not a header, \<open>licenses/LICENSE\<close>.
\<close>

theorem header_only_package_has_no_lib:
  "getattr_header_only (example_recipe\<lparr>header_only := Some True\<rparr>)
   \<and> entry_at (package header_world (example_recipe\<lparr>header_only := Some True\<rparr>) Map.empty) [''lib'']
       = Inr None
   \<and> entry_at (package header_world (example_recipe\<lparr>header_only := Some True\<rparr>) Map.empty) [''bin'']
       = Inr None
   \<and> entry_at (package header_world (example_recipe\<lparr>header_only := Some True\<rparr>) Map.empty)
        [''licenses'', ''LICENSE'']
       = Inr (Some (RegularFile ''/* TinyEXR */\<newline>#pragma once'' 50))"
  by (simp add: getattr_header_only_def entry_at_def package_def header_world_def header_license
      header_files and_then_def makedirs_single save_def copy_def copy_file_def copy2_def
      isdir_def folder_exists_def filecmp_def write_file_def parent_error_def)

section \<open>Packaging twice\<close>




section \<open>A recipe on which source() never ran\<close>



end
